theory Spec2Isabelle
  imports Main "HOL-Library.Char_ord" "HOL-Library.List_Lexorder"
begin

section \<open>The storage backend as seen by the Drive adapter\<close>

text \<open>
  The tools of \<^verbatim>\<open>src/drive/index.js\<close> talk to Google Drive through three calls of the
  client: \<^verbatim>\<open>drive.files.list\<close>, \<^verbatim>\<open>drive.files.create\<close> and \<^verbatim>\<open>drive.files.get\<close>.
  The backend is not part of the repository, so it is modelled by what these calls need:
  \<^item> \<open>files\<close>: the file resources, in the order in which the backend lists them;
  \<^item> \<open>denied\<close>: the folders whose listing the backend rejects (an inaccessible folder);
  \<^item> \<open>readonly\<close>: the folders in which the backend rejects a creation;
  \<^item> \<open>assign\<close>: the id the backend gives to the next created file, left open as a
    function of the store;
  \<^item> \<open>beyond\<close>: the backend's reading of a search expression outside the part of its
    query language that is modelled here (\<open>None\<close>: the expression is rejected), left
    open as well;
  \<^item> \<open>requests\<close>: the log of the requests received, which the calls append to, so that
    statements about the calls a tool issues can be made.

  A rejected promise or a thrown error is the \<open>Inl\<close> of the result: \<open>BackendFailure\<close>
  with the rejected request, or \<open>NotFound folderName path\<close> for the resolver's own
  \<^verbatim>\<open>Folder not found: ... in path ...\<close>. \<^verbatim>\<open>handleDriveOperation\<close> passes the client
  to the operation and rethrows what the operation throws; the operations below are its
  argument, applied to a client.
\<close>

record drive_file =
  file_id :: string
  file_name :: string
  file_mime :: string
  file_size :: "nat option"
  file_parents :: "string list"
  file_trashed :: bool

definition folder_mime :: string where
  "folder_mime = ''application/vnd.google-apps.folder''"

text \<open>
  The source builds the search expression \<^verbatim>\<open>q\<close> as a list of terms joined by
  \<^verbatim>\<open>' and '\<close>, or writes it as one template of this shape. A request keeps the terms
  as the source writes them: \<open>NameQuoted n\<close> is the text \<^verbatim>\<open>name = '${n}'\<close> with
  \<open>n\<close> put between the quotes as it is, unescaped. What the backend makes of the text
  is a matter of the backend (\<open>reading\<close> below).
\<close>

datatype clause =
    InParents string
  | NotTrashed
  | MimeIs string
  | MimeIsNot string
  | NameQuoted string

datatype order = Default | ByName

datatype request =
    ListFiles "clause list"
  | CreateFile string "string list"
  | GetFile string

datatype error =
    NotFound string string
  | BackendFailure request

record drive =
  files :: "drive_file list"
  denied :: "string list"
  readonly :: "string list"
  assign :: "drive_file list \<Rightarrow> string"
  beyond :: "string \<Rightarrow> (drive_file \<Rightarrow> bool) option"
  requests :: "request list"

fun satisfies :: "drive_file \<Rightarrow> clause \<Rightarrow> bool" where
  "satisfies f (InParents p) = (p \<in> set (file_parents f))"
| "satisfies f NotTrashed = (\<not> file_trashed f)"
| "satisfies f (MimeIs m) = (file_mime f = m)"
| "satisfies f (MimeIsNot m) = (file_mime f \<noteq> m)"
| "satisfies f (NameQuoted n) = (file_name f = n)"

fun refused :: "string list \<Rightarrow> clause \<Rightarrow> bool" where
  "refused ds (InParents p) = (p \<in> set ds)"
| "refused ds NotTrashed = False"
| "refused ds (MimeIs m) = False"
| "refused ds (MimeIsNot m) = False"
| "refused ds (NameQuoted n) = False"

definition list_fails :: "drive \<Rightarrow> clause list \<Rightarrow> bool" where
  "list_fails d q = list_ex (refused (denied d)) q"

subsection \<open>How the backend reads a search expression\<close>

text \<open>
  A name is plain when it holds no single quote and no backslash. A search expression
  whose name term is plain means what its terms say, all of them together; ids and MIME
  types are taken as written. A name with a quote or a backslash does not stay inside
  its quotes, so such an expression is read from its text, as the backend receives it:
  \<open>render\<close> is the text the source sends, and \<open>parse_query\<close> reads the part
  of Drive's query language made of the terms \<^verbatim>\<open>name = '...'\<close>,
  \<^verbatim>\<open>mimeType = '...'\<close>, \<^verbatim>\<open>mimeType != '...'\<close>, \<^verbatim>\<open>'...' in parents\<close> and
  \<^verbatim>\<open>trashed = true|false\<close>, joined by \<^verbatim>\<open>and\<close> and \<^verbatim>\<open>or\<close> (\<^verbatim>\<open>and\<close> binding
  tighter). Inside quotes a backslash makes the next character part of the literal, and
  a quote ends it. What the backend makes of any other text is its \<open>beyond\<close>.
\<close>

definition quote :: char where "quote = CHR 0x27"
definition backslash :: char where "backslash = CHR 0x5C"

datatype token = TLit string | TWord string | TEq | TNeq

datatype mode = Between | InWord string | Bang | InLit string | Escaped string

fun lex_go :: "mode \<Rightarrow> token list \<Rightarrow> string \<Rightarrow> token list option" where
  "lex_go Between ts [] = Some (rev ts)"
| "lex_go (InWord w) ts [] = Some (rev (TWord w # ts))"
| "lex_go Bang ts [] = None"
| "lex_go (InLit s) ts [] = None"
| "lex_go (Escaped s) ts [] = None"
| "lex_go Between ts (c # cs) =
     (if c = CHR '' '' then lex_go Between ts cs
      else if c = quote then lex_go (InLit []) ts cs
      else if c = CHR ''='' then lex_go Between (TEq # ts) cs
      else if c = CHR ''!'' then lex_go Bang ts cs
      else lex_go (InWord [c]) ts cs)"
| "lex_go (InWord w) ts (c # cs) =
     (if c = CHR '' '' then lex_go Between (TWord w # ts) cs
      else if c = quote then lex_go (InLit []) (TWord w # ts) cs
      else if c = CHR ''='' then lex_go Between (TEq # TWord w # ts) cs
      else if c = CHR ''!'' then lex_go Bang (TWord w # ts) cs
      else lex_go (InWord (w @ [c])) ts cs)"
| "lex_go Bang ts (c # cs) =
     (if c = CHR ''='' then lex_go Between (TNeq # ts) cs else None)"
| "lex_go (InLit s) ts (c # cs) =
     (if c = backslash then lex_go (Escaped s) ts cs
      else if c = quote then lex_go Between (TLit s # ts) cs
      else lex_go (InLit (s @ [c])) ts cs)"
| "lex_go (Escaped s) ts (c # cs) = lex_go (InLit (s @ [c])) ts cs"

definition lex :: "string \<Rightarrow> token list option" where
  "lex text = lex_go Between [] text"

fun split_at :: "token \<Rightarrow> token list \<Rightarrow> token list list" where
  "split_at k [] = [[]]"
| "split_at k (t # ts) =
     (if t = k then [] # split_at k ts
      else (case split_at k ts of [] \<Rightarrow> [[t]] | g # gs \<Rightarrow> (t # g) # gs))"

datatype cond = CName string | CMime string | CMimeNot string | CParent string | CTrashed bool

definition parse_term :: "token list \<Rightarrow> cond option" where
  "parse_term ts =
     (case ts of
        [TWord w, TEq, TLit s] \<Rightarrow>
          if w = ''name'' then Some (CName s)
          else if w = ''mimeType'' then Some (CMime s) else None
      | [TWord w, TNeq, TLit s] \<Rightarrow> if w = ''mimeType'' then Some (CMimeNot s) else None
      | [TLit p, TWord i, TWord ps] \<Rightarrow>
          if i = ''in'' \<and> ps = ''parents'' then Some (CParent p) else None
      | [TWord w, TEq, TWord b] \<Rightarrow>
          if w = ''trashed'' \<and> b = ''false'' then Some (CTrashed False)
          else if w = ''trashed'' \<and> b = ''true'' then Some (CTrashed True) else None
      | _ \<Rightarrow> None)"

definition parse_query :: "string \<Rightarrow> cond list list option" where
  "parse_query text =
     (case lex text of
        None \<Rightarrow> None
      | Some ts \<Rightarrow>
          those (map (\<lambda>alt. those (map parse_term (split_at (TWord ''and'') alt)))
                   (split_at (TWord ''or'') ts)))"

fun holds :: "drive_file \<Rightarrow> cond \<Rightarrow> bool" where
  "holds f (CName n) = (file_name f = n)"
| "holds f (CMime m) = (file_mime f = m)"
| "holds f (CMimeNot m) = (file_mime f \<noteq> m)"
| "holds f (CParent p) = (p \<in> set (file_parents f))"
| "holds f (CTrashed b) = (file_trashed f = b)"

definition matches :: "cond list list \<Rightarrow> drive_file \<Rightarrow> bool" where
  "matches alts f = list_ex (list_all (holds f)) alts"

definition plain_text :: "string \<Rightarrow> bool" where
  "plain_text n = list_all (\<lambda>c. c \<noteq> quote \<and> c \<noteq> backslash) n"

fun plain_clause :: "clause \<Rightarrow> bool" where
  "plain_clause (NameQuoted n) = plain_text n"
| "plain_clause (InParents p) = True"
| "plain_clause NotTrashed = True"
| "plain_clause (MimeIs m) = True"
| "plain_clause (MimeIsNot m) = True"

fun render_clause :: "clause \<Rightarrow> string" where
  "render_clause (InParents p) = [quote] @ p @ [quote] @ '' in parents''"
| "render_clause NotTrashed = ''trashed = false''"
| "render_clause (MimeIs m) = ''mimeType = '' @ [quote] @ m @ [quote]"
| "render_clause (MimeIsNot m) = ''mimeType != '' @ [quote] @ m @ [quote]"
| "render_clause (NameQuoted n) = ''name = '' @ [quote] @ n @ [quote]"

text \<open>\<^verbatim>\<open>q.join(' and ')\<close>.\<close>

fun render :: "clause list \<Rightarrow> string" where
  "render [] = []"
| "render [c] = render_clause c"
| "render (c # c' # cs) = render_clause c @ '' and '' @ render (c' # cs)"

definition reading :: "drive \<Rightarrow> clause list \<Rightarrow> (drive_file \<Rightarrow> bool) option" where
  "reading d q =
     (if list_all plain_clause q then Some (\<lambda>f. list_all (satisfies f) q)
      else (case parse_query (render q) of
              Some alts \<Rightarrow> Some (matches alts)
            | None \<Rightarrow> beyond d (render q)))"

definition arrange :: "order \<Rightarrow> drive_file list \<Rightarrow> drive_file list" where
  "arrange ob fs = (case ob of Default \<Rightarrow> fs | ByName \<Rightarrow> sort_key file_name fs)"

definition logged :: "request \<Rightarrow> drive \<Rightarrow> drive" where
  "logged r d = d\<lparr>requests := requests d @ [r]\<rparr>"

text \<open>
  \<^verbatim>\<open>drive.files.list({q, pageSize, orderBy})\<close>: the first page of the matching files
  (the source never asks for a second one), unless the folder is one whose listing is
  refused or the expression cannot be read. The answer always carries the array
  \<^verbatim>\<open>files\<close>, so the source's \<^verbatim>\<open>response.data.files || []\<close> is the array itself.
  \<^verbatim>\<open>orderBy: 'name'\<close> is a stable sort by name in the order of the character codes;
  without \<^verbatim>\<open>orderBy\<close> the order is that of the store.
\<close>

definition files_list :: "clause list \<Rightarrow> order \<Rightarrow> nat \<Rightarrow> drive \<Rightarrow> (error + drive_file list) \<times> drive" where
  "files_list q ob pageSize d =
     (case (if list_fails d q then None else reading d q) of
        None \<Rightarrow> (Inl (BackendFailure (ListFiles q)), logged (ListFiles q) d)
      | Some sel \<Rightarrow>
          (Inr (take pageSize (arrange ob (filter sel (files d)))), logged (ListFiles q) d))"

text \<open>
  \<^verbatim>\<open>drive.files.create({requestBody: {name, mimeType, parents}})\<close>: the new file is
  appended to the store and its id returned.
\<close>

definition files_create :: "string \<Rightarrow> string \<Rightarrow> string list \<Rightarrow> drive \<Rightarrow> (error + string) \<times> drive" where
  "files_create nm mime ps d =
     (if list_ex (\<lambda>p. p \<in> set (readonly d)) ps
      then (Inl (BackendFailure (CreateFile nm ps)), logged (CreateFile nm ps) d)
      else (Inr (assign d (files d)),
            logged (CreateFile nm ps)
              (d\<lparr>files := files d @
                   [\<lparr>file_id = assign d (files d), file_name = nm, file_mime = mime,
                     file_size = None, file_parents = ps, file_trashed = False\<rparr>]\<rparr>)))"

text \<open>\<^verbatim>\<open>drive.files.get({fileId})\<close>: rejected for an id the store does not hold.\<close>

definition files_get :: "string \<Rightarrow> drive \<Rightarrow> (error + drive_file) \<times> drive" where
  "files_get fid d =
     (case filter (\<lambda>f. file_id f = fid) (files d) of
        [] \<Rightarrow> (Inl (BackendFailure (GetFile fid)), logged (GetFile fid) d)
      | f # _ \<Rightarrow> (Inr f, logged (GetFile fid) d))"

section \<open>Path resolver: \<^verbatim>\<open>get_folder_id_for_path\<close>\<close>

text \<open>\<^verbatim>\<open>path.split('/')\<close>: the pieces between separators, empty pieces included.\<close>

fun split_on :: "char \<Rightarrow> string \<Rightarrow> string list" where
  "split_on c [] = [[]]"
| "split_on c (x # xs) =
     (if x = c then [] # split_on c xs
      else (case split_on c xs of [] \<Rightarrow> [[x]] | y # ys \<Rightarrow> (x # y) # ys))"

text \<open>\<^verbatim>\<open>path.split('/').filter(f => f)\<close>: an empty string is the only falsy string.\<close>

definition path_folders :: "string \<Rightarrow> string list" where
  "path_folders path = filter (\<lambda>f. f \<noteq> []) (split_on CHR ''/'' path)"

record path_response =
  pr_path :: string
  pr_folderId :: string

text \<open>
  The body of the \<^verbatim>\<open>for (const folderName of folders)\<close> loop, with
  \<^verbatim>\<open>currentParentId\<close> and the backend passed along. A rejected backend call and the
  \<^verbatim>\<open>throw new Error(`Folder not found: ...`)\<close> both leave the loop at once. The
  search expression is the source's template \<^verbatim>\<open>name = '${folderName}' and mimeType =
  'application/vnd.google-apps.folder' and '${currentParentId}' in parents and trashed =
  false\<close>, with the folder name put in as it is; the created folder gets the same name,
  as it is.
\<close>

fun resolve_folders ::
  "string \<Rightarrow> bool \<Rightarrow> string list \<Rightarrow> string \<Rightarrow> drive \<Rightarrow> (error + string) \<times> drive" where
  "resolve_folders path createIfNotExists [] currentParentId d = (Inr currentParentId, d)"
| "resolve_folders path createIfNotExists (folderName # folders) currentParentId d =
     (case files_list [NameQuoted folderName, MimeIs folder_mime, InParents currentParentId,
                       NotTrashed] Default 1 d of
        (Inl e, d1) \<Rightarrow> (Inl e, d1)
      | (Inr found, d1) \<Rightarrow>
          (case found of
             f # _ \<Rightarrow> resolve_folders path createIfNotExists folders (file_id f) d1
           | [] \<Rightarrow>
               if createIfNotExists then
                 (case files_create folderName folder_mime [currentParentId] d1 of
                    (Inl e, d2) \<Rightarrow> (Inl e, d2)
                  | (Inr newId, d2) \<Rightarrow>
                      resolve_folders path createIfNotExists folders newId d2)
               else (Inl (NotFound folderName path), d1)))"

definition get_folder_id_for_path ::
  "string \<Rightarrow> bool \<Rightarrow> drive \<Rightarrow> (error + path_response) \<times> drive" where
  "get_folder_id_for_path path createIfNotExists d =
     (case resolve_folders path createIfNotExists (path_folders path) ''root'' d of
        (Inl e, d1) \<Rightarrow> (Inl e, d1)
      | (Inr currentParentId, d1) \<Rightarrow>
          (Inr \<lparr>pr_path = path, pr_folderId = currentParentId\<rparr>, d1))"

section \<open>Recursive lister: \<^verbatim>\<open>list_folder_recursive\<close>\<close>

text \<open>
  An item is the listed file spread into a new object together with the computed
  \<^verbatim>\<open>path\<close> and \<^verbatim>\<open>depth\<close>.
\<close>

record item =
  item_file :: drive_file
  item_path :: string
  item_depth :: int

text \<open>
  \<^verbatim>\<open>allItems\<close> and \<^verbatim>\<open>visited\<close> are the two variables the closure
  \<^verbatim>\<open>traverseFolder\<close> mutates; the client is carried along for its request log.
\<close>

record traversal =
  visited :: "string set"
  allItems :: "item list"
  backend :: drive

text \<open>
  The search expression of \<^verbatim>\<open>traverseFolder\<close>. \<^verbatim>\<open>mimeType\<close> is an optional string,
  and \<^verbatim>\<open>mimeType && includeFiles\<close> holds for a non-empty string only.
\<close>

definition traverse_query :: "bool \<Rightarrow> bool \<Rightarrow> string option \<Rightarrow> string \<Rightarrow> clause list" where
  "traverse_query includeFiles includeFolders mimeType parentId =
     [InParents parentId, NotTrashed]
     @ (if \<not> includeFiles then [MimeIs folder_mime] else [])
     @ (if \<not> includeFolders \<and> includeFiles then [MimeIsNot folder_mime] else [])
     @ (case mimeType of
          None \<Rightarrow> []
        | Some m \<Rightarrow> if m \<noteq> [] \<and> includeFiles then [MimeIs m] else [])"

definition make_item :: "drive_file \<Rightarrow> string \<Rightarrow> int \<Rightarrow> item" where
  "make_item f path depth =
     \<lparr>item_file = f,
      item_path = (if path \<noteq> [] then path @ ''/'' @ file_name f else file_name f),
      item_depth = depth\<rparr>"

text \<open>
  \<^verbatim>\<open>traverseFolder\<close> and its \<^verbatim>\<open>for (const file of response.data.files || [])\<close>
  loop. The \<^verbatim>\<open>catch\<close> of a rejected listing only logs to the console: the folder stays
  in \<^verbatim>\<open>visited\<close> and nothing is pushed. \<^verbatim>\<open>depth\<close> counts up from 0 in steps of 1
  and \<^verbatim>\<open>maxDepth\<close> is the number it is compared with, both integers here (a
  fractional bound cuts the traversal where the next integer does). The
  recursion ends because every nested call is one level deeper and every iteration has
  one file less to go through.
\<close>

function traverseFolder ::
    "int \<Rightarrow> bool \<Rightarrow> bool \<Rightarrow> string option \<Rightarrow> string \<Rightarrow> int \<Rightarrow> string \<Rightarrow> traversal \<Rightarrow> traversal"
  and traverse_files ::
    "int \<Rightarrow> bool \<Rightarrow> bool \<Rightarrow> string option \<Rightarrow> drive_file list \<Rightarrow> int \<Rightarrow> string \<Rightarrow> traversal
       \<Rightarrow> traversal"
where
  "traverseFolder maxDepth includeFiles includeFolders mimeType parentId depth path s =
     (if depth \<ge> maxDepth \<or> parentId \<in> visited s then s
      else
        (case files_list (traverse_query includeFiles includeFolders mimeType parentId)
                Default 100 (backend s) of
           (Inl e, d1) \<Rightarrow> s\<lparr>visited := insert parentId (visited s), backend := d1\<rparr>
         | (Inr fs, d1) \<Rightarrow>
             traverse_files maxDepth includeFiles includeFolders mimeType fs depth path
               (s\<lparr>visited := insert parentId (visited s), backend := d1\<rparr>)))"
| "traverse_files maxDepth includeFiles includeFolders mimeType [] depth path s = s"
| "traverse_files maxDepth includeFiles includeFolders mimeType (f # fs) depth path s =
     traverse_files maxDepth includeFiles includeFolders mimeType fs depth path
       (if file_mime f = folder_mime
        then traverseFolder maxDepth includeFiles includeFolders mimeType (file_id f)
               (depth + 1) (item_path (make_item f path depth))
               (s\<lparr>allItems := allItems s @ [make_item f path depth]\<rparr>)
        else s\<lparr>allItems := allItems s @ [make_item f path depth]\<rparr>)"
  by pat_completeness auto
termination
  by (relation "inv_image (less_than <*lex*> less_than)
        (\<lambda>x. case x of
           Inl (maxDepth, _, _, _, _, depth, _, _) \<Rightarrow> (2 * nat (maxDepth - depth), 0)
         | Inr (maxDepth, _, _, _, fs, depth, _, _) \<Rightarrow>
             (2 * nat (maxDepth - (depth + 1)) + 1, length fs))")
     auto

record list_response =
  lr_items :: "item list"
  lr_count :: nat
  lr_folderId :: string
  lr_maxDepth :: int

definition list_folder_recursive ::
  "string \<Rightarrow> int \<Rightarrow> bool \<Rightarrow> bool \<Rightarrow> string option \<Rightarrow> drive \<Rightarrow> list_response \<times> drive" where
  "list_folder_recursive folderId maxDepth includeFiles includeFolders mimeType d =
     (let s = traverseFolder maxDepth includeFiles includeFolders mimeType folderId 0 []
                \<lparr>visited = {}, allItems = [], backend = d\<rparr>
      in (\<lparr>lr_items = allItems s, lr_count = length (allItems s),
           lr_folderId = folderId, lr_maxDepth = maxDepth\<rparr>, backend s))"

section \<open>Tree builder: \<^verbatim>\<open>get_folder_tree\<close>\<close>

text \<open>
  A property of a JavaScript object is either absent or present with a value; the value
  of \<^verbatim>\<open>children\<close> is \<^verbatim>\<open>null\<close> (\<open>None\<close>) or an array of nodes.
\<close>

datatype 'a field = Absent | Present 'a

datatype kind = Folder | File

datatype node =
  Node (node_id: string) (node_name: string) (node_type: kind) (node_size: "nat option")
       (node_children: "node list option field")

definition tree_query :: "bool \<Rightarrow> string \<Rightarrow> clause list" where
  "tree_query includeFiles parentId =
     [InParents parentId, NotTrashed] @ (if \<not> includeFiles then [MimeIs folder_mime] else [])"

definition file_kind :: "drive_file \<Rightarrow> kind" where
  "file_kind f = (if file_mime f = folder_mime then Folder else File)"

text \<open>
  \<^verbatim>\<open>if (children && children.length > 0) item.children = children\<close>: the property is
  set for a non-empty array only.
\<close>

definition attach_children :: "node list option \<Rightarrow> node list option field" where
  "attach_children children =
     (case children of
        None \<Rightarrow> Absent
      | Some cs \<Rightarrow> if length cs > 0 then Present (Some cs) else Absent)"

text \<open>
  \<^verbatim>\<open>buildTree\<close> and its loop over the listed files, which collects \<^verbatim>\<open>items\<close>. No call
  is wrapped in \<^verbatim>\<open>try\<close>: a rejected listing leaves both at once.
\<close>

function buildTree ::
    "int \<Rightarrow> bool \<Rightarrow> string \<Rightarrow> int \<Rightarrow> drive \<Rightarrow> (error + node list option) \<times> drive"
  and build_items ::
    "int \<Rightarrow> bool \<Rightarrow> drive_file list \<Rightarrow> int \<Rightarrow> node list \<Rightarrow> drive \<Rightarrow> (error + node list) \<times> drive"
where
  "buildTree maxDepth includeFiles parentId depth d =
     (if depth \<ge> maxDepth then (Inr None, d)
      else
        (case files_list (tree_query includeFiles parentId) ByName 50 d of
           (Inl e, d1) \<Rightarrow> (Inl e, d1)
         | (Inr fs, d1) \<Rightarrow>
             (case build_items maxDepth includeFiles fs depth [] d1 of
                (Inl e, d2) \<Rightarrow> (Inl e, d2)
              | (Inr items, d2) \<Rightarrow> (Inr (Some items), d2))))"
| "build_items maxDepth includeFiles [] depth items d = (Inr items, d)"
| "build_items maxDepth includeFiles (f # fs) depth items d =
     (if file_kind f = Folder then
        (case buildTree maxDepth includeFiles (file_id f) (depth + 1) d of
           (Inl e, d1) \<Rightarrow> (Inl e, d1)
         | (Inr children, d1) \<Rightarrow>
             build_items maxDepth includeFiles fs depth
               (items @ [Node (file_id f) (file_name f) Folder (file_size f)
                           (attach_children children)]) d1)
      else
        build_items maxDepth includeFiles fs depth
          (items @ [Node (file_id f) (file_name f) File (file_size f) Absent]) d)"
  by pat_completeness auto
termination
  by (relation "inv_image (less_than <*lex*> less_than)
        (\<lambda>x. case x of
           Inl (maxDepth, _, _, depth, _) \<Rightarrow> (2 * nat (maxDepth - depth), 0)
         | Inr (maxDepth, _, fs, depth, _, _) \<Rightarrow>
             (2 * nat (maxDepth - (depth + 1)) + 1, length fs))")
     auto

record root_node =
  root_id :: string
  root_name :: string
  root_children :: "node list option field"

text \<open>
  The tool: the root's name is \<^verbatim>\<open>'My Drive'\<close> for the alias \<^verbatim>\<open>'root'\<close> and is
  fetched otherwise; \<^verbatim>\<open>children: tree\<close> always sets the property, to whatever
  \<^verbatim>\<open>buildTree\<close> returned.
\<close>

definition get_folder_tree ::
  "string \<Rightarrow> int \<Rightarrow> bool \<Rightarrow> drive \<Rightarrow> (error + root_node) \<times> drive" where
  "get_folder_tree folderId maxDepth includeFiles d =
     (case (if folderId \<noteq> ''root''
            then (case files_get folderId d of
                    (Inl e, d1) \<Rightarrow> (Inl e, d1)
                  | (Inr rootFile, d1) \<Rightarrow> (Inr (file_name rootFile), d1))
            else (Inr ''My Drive'', d)) of
        (Inl e, d1) \<Rightarrow> (Inl e, d1)
      | (Inr rootName, d1) \<Rightarrow>
          (case buildTree maxDepth includeFiles folderId 0 d1 of
             (Inl e, d2) \<Rightarrow> (Inl e, d2)
           | (Inr tree, d2) \<Rightarrow>
               (Inr \<lparr>root_id = folderId, root_name = rootName, root_children = Present tree\<rparr>,
                d2)))"

section \<open>The fixture of the specification's scenarios\<close>

text \<open>
  Root holds folder A; A holds the file x.txt and the empty folder B, in this listing
  order. No listing is refused.
\<close>

definition fixture :: drive where
  "fixture =
     \<lparr>files =
        [\<lparr>file_id = ''A'', file_name = ''A'', file_mime = folder_mime, file_size = None,
          file_parents = [''root''], file_trashed = False\<rparr>,
         \<lparr>file_id = ''x'', file_name = ''x.txt'', file_mime = ''text/plain'',
          file_size = Some 3, file_parents = [''A''], file_trashed = False\<rparr>,
         \<lparr>file_id = ''B'', file_name = ''B'', file_mime = folder_mime, file_size = None,
          file_parents = [''A''], file_trashed = False\<rparr>],
      denied = [], readonly = [],
      assign = (\<lambda>fs. ''new'' @ replicate (length fs) CHR ''+''),
      beyond = (\<lambda>text. None),
      requests = []\<rparr>"

text \<open>
  A backend with a cycle: folder A is a child of the root and of B, and B is a child of A.
\<close>

definition cyclic :: drive where
  "cyclic =
     \<lparr>files =
        [\<lparr>file_id = ''A'', file_name = ''A'', file_mime = folder_mime, file_size = None,
          file_parents = [''root'', ''B''], file_trashed = False\<rparr>,
         \<lparr>file_id = ''B'', file_name = ''B'', file_mime = folder_mime, file_size = None,
          file_parents = [''A''], file_trashed = False\<rparr>],
      denied = [], readonly = [],
      assign = (\<lambda>fs. ''new'' @ replicate (length fs) CHR ''+''),
      beyond = (\<lambda>text. None),
      requests = []\<rparr>"

text \<open>
  A backend whose folder A refuses to be listed; the root also holds the file y.txt,
  listed after A.
\<close>

definition guarded :: drive where
  "guarded =
     \<lparr>files =
        [\<lparr>file_id = ''A'', file_name = ''A'', file_mime = folder_mime, file_size = None,
          file_parents = [''root''], file_trashed = False\<rparr>,
         \<lparr>file_id = ''x'', file_name = ''x.txt'', file_mime = ''text/plain'',
          file_size = Some 3, file_parents = [''A''], file_trashed = False\<rparr>,
         \<lparr>file_id = ''y'', file_name = ''y.txt'', file_mime = ''text/plain'',
          file_size = Some 5, file_parents = [''root''], file_trashed = False\<rparr>],
      denied = [''A''], readonly = [],
      assign = (\<lambda>fs. ''new'' @ replicate (length fs) CHR ''+''),
      beyond = (\<lambda>text. None),
      requests = []\<rparr>"


section \<open>Observations used in the statements\<close>

text \<open>
  The requests a tool issued are the part of the log written after the state it started
  from.
\<close>

definition issued :: "drive \<Rightarrow> drive \<Rightarrow> request list" where
  "issued d d' = drop (length (requests d)) (requests d')"

fun clause_parent :: "clause \<Rightarrow> string list" where
  "clause_parent (InParents p) = [p]"
| "clause_parent NotTrashed = []"
| "clause_parent (MimeIs m) = []"
| "clause_parent (MimeIsNot m) = []"
| "clause_parent (NameQuoted n) = []"

fun request_parents :: "request \<Rightarrow> string list" where
  "request_parents (ListFiles q) = concat (map clause_parent q)"
| "request_parents (CreateFile nm ps) = []"
| "request_parents (GetFile fid) = []"

text \<open>The folders whose children were listed, one entry per listing, in call order.\<close>

definition listed_parents :: "request list \<Rightarrow> string list" where
  "listed_parents rs = concat (map request_parents rs)"

text \<open>Whether the backend rejects a request (the conditions of the three calls above).\<close>

fun request_fails :: "drive \<Rightarrow> request \<Rightarrow> bool" where
  "request_fails d (ListFiles q) = (list_fails d q \<or> reading d q = None)"
| "request_fails d (CreateFile nm ps) = list_ex (\<lambda>p. p \<in> set (readonly d)) ps"
| "request_fails d (GetFile fid) = (filter (\<lambda>f. file_id f = fid) (files d) = [])"

text \<open>
  The outcome of a resolution without the text of the requested path, which the tool
  only echoes in its response and in the message of the not-found error.
\<close>

fun forget_path :: "error \<Rightarrow> error" where
  "forget_path (NotFound folderName path) = NotFound folderName []"
| "forget_path (BackendFailure r) = BackendFailure r"

definition resolved :: "(error + path_response) \<times> drive \<Rightarrow> (error + string) \<times> drive" where
  "resolved r = (map_sum forget_path pr_folderId (fst r), snd r)"

text \<open>The path and depth of every listed item, in output order.\<close>

definition listing :: "list_response \<Rightarrow> (string \<times> int) list" where
  "listing r = map (\<lambda>i. (item_path i, item_depth i)) (lr_items r)"

text \<open>The depths an item of a traversal bounded by \<open>maxDepth\<close> can carry.\<close>

definition depth_ok :: "int \<Rightarrow> item \<Rightarrow> bool" where
  "depth_ok maxDepth i = (0 \<le> item_depth i \<and> item_depth i < maxDepth)"

text \<open>
  \<open>expands\<close> relates two states of a traversal: the later one has listed the folders
  \<open>ps\<close>, in this order, each with the traversal's own query and nothing else, these
  folders were not visited before, none occurs twice, and they are what was added to
  \<^verbatim>\<open>visited\<close>. \<open>propagates\<close> relates a starting backend to the outcome of a call:
  the call only appended requests to the log, and it ends in an error unless every one
  of them was answered.
\<close>

definition expands :: "bool \<Rightarrow> bool \<Rightarrow> string option \<Rightarrow> traversal \<Rightarrow> traversal \<Rightarrow> string list \<Rightarrow> bool" where
  "expands includeFiles includeFolders mimeType s s' ps =
     (backend s' = (backend s)\<lparr>requests := requests (backend s) @
         map (\<lambda>p. ListFiles (traverse_query includeFiles includeFolders mimeType p)) ps\<rparr> \<and>
      visited s' = visited s \<union> set ps \<and> distinct ps \<and> set ps \<inter> visited s = {})"

definition propagates :: "drive \<Rightarrow> (error + 'a) \<times> drive \<Rightarrow> bool" where
  "propagates d r =
     (\<exists>rs. snd r = d\<lparr>requests := requests d @ rs\<rparr> \<and>
           (isl (fst r) \<or> \<not> list_ex (request_fails d) rs))"

section \<open>Evaluation on concrete backends\<close>

text \<open>The definitions unfolded when a tool is run on a concrete backend.\<close>

lemmas eval_defs =
  list_folder_recursive_def get_folder_tree_def fixture_def files_list_def files_get_def
  reading_def
  list_fails_def traverse_query_def tree_query_def make_item_def logged_def folder_mime_def
  arrange_def file_kind_def attach_children_def listing_def

text \<open>The same for the resolver, and for an expression that is read from its text.\<close>

lemmas resolver_defs =
  fixture_def files_list_def files_create_def reading_def plain_text_def quote_def
  backslash_def list_fails_def arrange_def logged_def folder_mime_def


section \<open>Facts about the backend calls\<close>

lemma logged_simps [simp]:
  "files (logged r d) = files d"
  "denied (logged r d) = denied d"
  "readonly (logged r d) = readonly d"
  "assign (logged r d) = assign d"
  "requests (logged r d) = requests d @ [r]"
  by (simp_all add: logged_def)

lemma list_fails_logged [simp]: "list_fails (logged r d) q = list_fails d q"
  by (simp add: list_fails_def)

lemma reading_logged [simp]: "reading (logged r d) q = reading d q"
  by (simp add: reading_def logged_def split: option.splits)

lemma reading_requests [simp]: "reading (d\<lparr>requests := rs\<rparr>) q = reading d q"
  by (simp add: reading_def split: option.splits)

lemma files_list_snd [simp]: "snd (files_list q ob n d) = logged (ListFiles q) d"
  by (simp add: files_list_def split: option.splits)

lemma files_list_pair: "files_list q ob n d = (fst (files_list q ob n d), logged (ListFiles q) d)"
  by (simp add: files_list_def split: option.splits)

text \<open>An expression with a plain name term is answered by what its terms say.\<close>

lemma files_list_plain:
  "list_all plain_clause q \<Longrightarrow>
     files_list q ob n d =
       (if list_fails d q then (Inl (BackendFailure (ListFiles q)), logged (ListFiles q) d)
        else (Inr (take n (arrange ob (filter (\<lambda>f. list_all (satisfies f) q) (files d)))),
              logged (ListFiles q) d))"
  by (simp add: files_list_def reading_def)

lemma reading_plain [simp]: "list_all plain_clause q \<Longrightarrow> reading d q \<noteq> None"
  by (simp add: reading_def)

text \<open>
  The two ways of reading agree where they meet: for a plain name and a plain parent id,
  the text the resolver sends is read as the one alternative made of its four terms.
\<close>

lemma lex_literal_plain:
  "plain_text s \<Longrightarrow>
     lex_go (InLit acc) ts (s @ quote # rest) = lex_go Between (TLit (acc @ s) # ts) rest"
proof (induction s arbitrary: acc)
  case Nil
  show ?case by (simp add: quote_def backslash_def)
next
  case (Cons c s)
  then have "c \<noteq> quote" "c \<noteq> backslash" "plain_text s"
    by (simp_all add: plain_text_def)
  with Cons.IH [of "acc @ [c]"] show ?case by simp
qed

lemma resolver_query_lex:
  assumes "plain_text n" and "plain_text p"
  shows "lex (render [NameQuoted n, MimeIs folder_mime, InParents p, NotTrashed]) =
          Some [TWord ''name'', TEq, TLit n, TWord ''and'', TWord ''mimeType'', TEq,
                TLit folder_mime, TWord ''and'', TLit p, TWord ''in'', TWord ''parents'',
                TWord ''and'', TWord ''trashed'', TEq, TWord ''false'']"
  by (simp add: lex_def quote_def backslash_def folder_mime_def
        lex_literal_plain [OF assms(1), unfolded quote_def]
        lex_literal_plain [OF assms(2), unfolded quote_def])

lemma resolver_query_read:
  assumes "plain_text n" and "plain_text p"
  shows "parse_query (render [NameQuoted n, MimeIs folder_mime, InParents p, NotTrashed]) =
           Some [[CName n, CMime folder_mime, CParent p, CTrashed False]]"
  unfolding parse_query_def resolver_query_lex [OF assms]
  by (simp add: parse_term_def)

lemma resolver_query_meaning:
  assumes "plain_text n" and "plain_text p"
  shows "\<exists>alts. parse_query (render [NameQuoted n, MimeIs folder_mime, InParents p, NotTrashed]) =
                  Some alts \<and>
               (\<forall>f. matches alts f =
                    list_all (satisfies f)
                      [NameQuoted n, MimeIs folder_mime, InParents p, NotTrashed])"
  unfolding resolver_query_read [OF assms] by (simp add: matches_def)

lemma plain_traverse_query [simp]:
  "list_all plain_clause (traverse_query includeFiles includeFolders mimeType parentId)"
  by (cases mimeType) (simp_all add: traverse_query_def)

lemma plain_tree_query [simp]: "list_all plain_clause (tree_query includeFiles parentId)"
  by (simp add: tree_query_def)

section \<open>Path resolver: properties\<close>

text \<open>
  When every folder of the path is found, the flag is never looked at and the only
  requests are listings.
\<close>

lemma resolve_existing:
  "fst (resolve_folders path False folders p d) = Inr x \<Longrightarrow>
     resolve_folders path c folders p d = resolve_folders path False folders p d \<and>
     (\<exists>qs. snd (resolve_folders path False folders p d) = d\<lparr>requests := requests d @ map ListFiles qs\<rparr>)"
proof (induction folders arbitrary: p d)
  case Nil
  show ?case by (simp add: exI [of _ "[]"])
next
  case (Cons folderName folders)
  let ?q = "[NameQuoted folderName, MimeIs folder_mime, InParents p, NotTrashed]"
  let ?d1 = "logged (ListFiles ?q) d"
  obtain r where r: "files_list ?q Default 1 d = (r, ?d1)"
    using files_list_pair by blast
  show ?case
  proof (cases r)
    case (Inl e)
    with Cons.prems r show ?thesis by simp
  next
    case (Inr found)
    show ?thesis
    proof (cases found)
      case Nil
      with Cons.prems r Inr show ?thesis by simp
    next
      case (Cons f rest)
      from Cons.prems r Inr Cons
      have "fst (resolve_folders path False folders (file_id f) ?d1) = Inr x" by simp
      from Cons.IH [OF this] obtain qs where
        eq: "resolve_folders path c folders (file_id f) ?d1 = resolve_folders path False folders (file_id f) ?d1"
        and lg: "snd (resolve_folders path False folders (file_id f) ?d1) = ?d1\<lparr>requests := requests ?d1 @ map ListFiles qs\<rparr>"
        by blast
      have "?d1\<lparr>requests := requests ?d1 @ map ListFiles qs\<rparr> = d\<lparr>requests := requests d @ map ListFiles (?q # qs)\<rparr>"
        by (simp add: logged_def)
      with eq lg r Inr Cons show ?thesis
        by (simp del: map_append list.map) blast
    qed
  qed
qed







text \<open>The text of the path only shows in the not-found error.\<close>

lemma resolve_path_text:
  "map_sum forget_path id (fst (resolve_folders p c folders par d)) =
     map_sum forget_path id (fst (resolve_folders q c folders par d)) \<and>
   snd (resolve_folders p c folders par d) = snd (resolve_folders q c folders par d)"
proof (induction folders arbitrary: par d)
  case Nil
  show ?case by simp
next
  case (Cons folderName folders)
  then show ?case
    by (auto split: prod.splits sum.splits list.splits)
qed

lemma resolved_same_folders:
  assumes "path_folders p = path_folders q"
  shows "resolved (get_folder_id_for_path p c d) = resolved (get_folder_id_for_path q c d)"
proof -
  let ?P = "resolve_folders p c (path_folders p) ''root'' d"
  let ?Q = "resolve_folders q c (path_folders p) ''root'' d"
  have *: "map_sum forget_path id (fst ?P) = map_sum forget_path id (fst ?Q)" "snd ?P = snd ?Q"
    using resolve_path_text [of p c "path_folders p" "''root''" d q] by simp_all
  show ?thesis
    using * assms
    by (cases ?P; cases ?Q; cases "fst ?P"; cases "fst ?Q")
       (auto simp: resolved_def get_folder_id_for_path_def)
qed

text \<open>
  Claim C9. A path with no non-empty segment resolves to the root id \<^verbatim>\<open>'root'\<close> for
  either value of \<^verbatim>\<open>createIfNotExists\<close>, and no backend call is made (the backend,
  with its request log, is returned as it was). Empty segments are discarded:
  \<^verbatim>\<open>/a//b/\<close> and \<^verbatim>\<open>a/b\<close> both walk the folders a, b, and two paths with the same
  non-empty segments resolve to the same folder id, or fail on the same folder, and leave
  the backend in the same state.
\<close>

theorem empty_path_resolves_to_root:
  "(path_folders path = [] \<longrightarrow>
      get_folder_id_for_path path createIfNotExists d =
        (Inr \<lparr>pr_path = path, pr_folderId = ''root''\<rparr>, d)) \<and>
   path_folders ''/a//b/'' = [''a'', ''b''] \<and>
   path_folders ''a/b'' = [''a'', ''b''] \<and>
   (path_folders p = path_folders q \<longrightarrow>
      resolved (get_folder_id_for_path p createIfNotExists d) =
      resolved (get_folder_id_for_path q createIfNotExists d))"
  using resolved_same_folders [of p q createIfNotExists d]
  by (simp add: get_folder_id_for_path_def path_folders_def)

theorem empty_path_resolves_to_root_witness:
  "path_folders '''' = [] \<and> path_folders ''//'' = [] \<and>
   get_folder_id_for_path '''' True fixture = (Inr \<lparr>pr_path = '''', pr_folderId = ''root''\<rparr>, fixture) \<and>
   get_folder_id_for_path ''//'' False fixture = (Inr \<lparr>pr_path = ''//'', pr_folderId = ''root''\<rparr>, fixture) \<and>
   path_folders ''/a//b/'' = path_folders ''a/b'' \<and>
   resolved (get_folder_id_for_path ''/a//b/'' True fixture) =
   resolved (get_folder_id_for_path ''a/b'' True fixture)"
proof -
  have e: "path_folders '''' = []" "path_folders ''//'' = []"
    by (simp_all add: path_folders_def)
  have s: "path_folders ''/a//b/'' = path_folders ''a/b''"
    by (simp add: path_folders_def)
  show ?thesis
    using e s
      empty_path_resolves_to_root [of "''''" True fixture "''/a//b/''" "''a/b''"]
      empty_path_resolves_to_root [of "''//''" False fixture "''/a//b/''" "''a/b''"]
    by (simp del: forget_path.simps)
qed

text \<open>
  Claim C10. If every segment of the path already resolves (the resolution without
  creation succeeds), then the resolution with either value of \<^verbatim>\<open>createIfNotExists\<close>
  returns the same response, the requests it issues are all list queries, and nothing
  else of the backend changes: the state after the call is the state before it with
  list queries appended to the request log.
\<close>

theorem existing_path_only_lists:
  assumes "fst (get_folder_id_for_path path False d) = Inr r"
  shows "fst (get_folder_id_for_path path createIfNotExists d) = Inr r \<and>
         (\<exists>qs. snd (get_folder_id_for_path path createIfNotExists d) =
                 d\<lparr>requests := requests d @ map ListFiles qs\<rparr>)"
proof -
  let ?w = "resolve_folders path False (path_folders path) ''root'' d"
  from assms obtain x where x: "fst ?w = Inr x"
    by (cases ?w; cases "fst ?w") (auto simp: get_folder_id_for_path_def)
  from resolve_existing [OF x, of createIfNotExists] obtain qs where
    "resolve_folders path createIfNotExists (path_folders path) ''root'' d = ?w"
    "snd ?w = d\<lparr>requests := requests d @ map ListFiles qs\<rparr>" by blast
  with assms show ?thesis
    by (cases ?w) (auto simp: get_folder_id_for_path_def split: sum.splits)
qed

theorem existing_path_only_lists_witness:
  "fst (get_folder_id_for_path ''A/B'' False fixture) = Inr \<lparr>pr_path = ''A/B'', pr_folderId = ''B''\<rparr> \<and>
   fst (get_folder_id_for_path ''A/B'' True fixture) = Inr \<lparr>pr_path = ''A/B'', pr_folderId = ''B''\<rparr> \<and>
   (\<exists>qs. snd (get_folder_id_for_path ''A/B'' True fixture) =
           fixture\<lparr>requests := requests fixture @ map ListFiles qs\<rparr>)"
proof -
  have h: "fst (get_folder_id_for_path ''A/B'' False fixture) =
             Inr \<lparr>pr_path = ''A/B'', pr_folderId = ''B''\<rparr>"
    by (simp add: get_folder_id_for_path_def path_folders_def resolver_defs)
  show ?thesis
    using h existing_path_only_lists [OF h, of True] by simp
qed




section \<open>Recursive lister: properties\<close>

text \<open>The three ways a call of \<^verbatim>\<open>traverseFolder\<close> can go.\<close>

lemma traverseFolder_skip:
  "maxDepth \<le> depth \<or> parentId \<in> visited s \<Longrightarrow>
     traverseFolder maxDepth includeFiles includeFolders mimeType parentId depth path s = s"
  by simp

lemma traverseFolder_fail:
  "\<not> (maxDepth \<le> depth \<or> parentId \<in> visited s) \<Longrightarrow>
   list_fails (backend s) (traverse_query includeFiles includeFolders mimeType parentId) \<Longrightarrow>
     traverseFolder maxDepth includeFiles includeFolders mimeType parentId depth path s =
       s\<lparr>visited := insert parentId (visited s),
         backend := logged (ListFiles (traverse_query includeFiles includeFolders mimeType parentId))
                      (backend s)\<rparr>"
  by (simp add: files_list_plain)

lemma traverseFolder_ok:
  "\<not> (maxDepth \<le> depth \<or> parentId \<in> visited s) \<Longrightarrow>
   \<not> list_fails (backend s) (traverse_query includeFiles includeFolders mimeType parentId) \<Longrightarrow>
     traverseFolder maxDepth includeFiles includeFolders mimeType parentId depth path s =
       traverse_files maxDepth includeFiles includeFolders mimeType
         (take 100 (filter (\<lambda>f. list_all (satisfies f)
                       (traverse_query includeFiles includeFolders mimeType parentId))
                     (files (backend s))))
         depth path
         (s\<lparr>visited := insert parentId (visited s),
            backend := logged (ListFiles (traverse_query includeFiles includeFolders mimeType parentId))
                         (backend s)\<rparr>)"
  by (simp add: files_list_plain arrange_def)

text \<open>Every item is pushed at the depth of the folder being listed, below the bound.\<close>

lemma traverse_depths:
  "0 \<le> depth \<Longrightarrow> list_all (depth_ok maxDepth) (allItems s) \<Longrightarrow>
     list_all (depth_ok maxDepth)
       (allItems (traverseFolder maxDepth includeFiles includeFolders mimeType parentId depth path s))"
  "0 \<le> depth \<Longrightarrow> depth < maxDepth \<Longrightarrow> list_all (depth_ok maxDepth) (allItems s) \<Longrightarrow>
     list_all (depth_ok maxDepth)
       (allItems (traverse_files maxDepth includeFiles includeFolders mimeType fs depth path s))"
proof (induction maxDepth includeFiles includeFolders mimeType parentId depth path s
         and maxDepth includeFiles includeFolders mimeType fs depth path s
       rule: traverseFolder_traverse_files.induct)
  case (1 maxDepth includeFiles includeFolders mimeType parentId depth path s)
  let ?q = "traverse_query includeFiles includeFolders mimeType parentId"
  show ?case
  proof (cases "maxDepth \<le> depth \<or> parentId \<in> visited s")
    case True
    show ?thesis unfolding traverseFolder_skip [OF True] using "1.prems" by simp
  next
    case go: False
    show ?thesis
    proof (cases "list_fails (backend s) ?q")
      case True
      show ?thesis unfolding traverseFolder_fail [OF go True] using "1.prems" by simp
    next
      case False
      have l: "(Inr (take 100 (filter (\<lambda>f. list_all (satisfies f) ?q) (files (backend s)))),
                logged (ListFiles ?q) (backend s)) = files_list ?q Default 100 (backend s)"
        using False by (simp add: files_list_plain arrange_def)
      show ?thesis unfolding traverseFolder_ok [OF go False]
        using go "1.prems" "1.IH" [OF go l refl] by simp
    qed
  qed
next
  case (2 maxDepth includeFiles includeFolders mimeType depth path s)
  then show ?case by simp
next
  case (3 maxDepth includeFiles includeFolders mimeType f fs depth path s)
  have "depth_ok maxDepth (make_item f path depth)"
    using "3.prems" by (simp add: depth_ok_def make_item_def)
  then have i: "list_all (depth_ok maxDepth) (allItems s @ [make_item f path depth])"
    using "3.prems" by simp
  show ?case
  proof (cases "file_mime f = folder_mime")
    case True
    from "3.IH"(1) [OF True] i "3.prems"
    have "list_all (depth_ok maxDepth)
            (allItems (traverseFolder maxDepth includeFiles includeFolders mimeType (file_id f)
               (depth + 1) (item_path (make_item f path depth))
               (s\<lparr>allItems := allItems s @ [make_item f path depth]\<rparr>)))"
      by simp
    with "3.IH"(2) "3.prems" True show ?thesis
      by (simp del: traverseFolder.simps)
  next
    case False
    with "3.IH"(2) "3.prems" i show ?thesis
      by (simp del: traverseFolder.simps)
  qed
qed

text \<open>
  Claim C1, as the code has it. On the fixture, \<^verbatim>\<open>list_folder_recursive\<close> from the
  root with \<^verbatim>\<open>maxDepth = 1\<close> and both kinds included returns exactly the entry
  (A, depth 0): folder A, at depth 1, is not listed, because \<^verbatim>\<open>traverseFolder\<close>
  returns at once when \<^verbatim>\<open>depth >= maxDepth\<close>. The three entries (A, 0), (A/x.txt, 1),
  (A/B, 1) are what \<^verbatim>\<open>maxDepth = 2\<close> returns. In general every listed item has a depth
  from 0 up to but not including \<^verbatim>\<open>maxDepth\<close>, so no entry at the boundary depth
  \<^verbatim>\<open>maxDepth\<close> is ever in the output.
\<close>

theorem lister_depth_below_maxDepth:
  "listing (fst (list_folder_recursive ''root'' 1 True True None fixture)) = [(''A'', 0)] \<and>
   listing (fst (list_folder_recursive ''root'' 2 True True None fixture)) =
     [(''A'', 0), (''A/x.txt'', 1), (''A/B'', 1)] \<and>
   list_all (depth_ok maxDepth)
     (lr_items (fst (list_folder_recursive folderId maxDepth includeFiles includeFolders mimeType d)))"
proof -
  have a: "listing (fst (list_folder_recursive ''root'' 1 True True None fixture)) = [(''A'', 0)]"
    by (simp add: eval_defs)
  have b: "listing (fst (list_folder_recursive ''root'' 2 True True None fixture)) =
     [(''A'', 0), (''A/x.txt'', 1), (''A/B'', 1)]"
    by (simp add: eval_defs)
  have c: "list_all (depth_ok maxDepth)
     (lr_items (fst (list_folder_recursive folderId maxDepth includeFiles includeFolders mimeType d)))"
    using traverse_depths(1) [of 0 maxDepth "\<lparr>visited = {}, allItems = [], backend = d\<rparr>"
            includeFiles includeFolders mimeType folderId "[]"]
    by (simp add: list_folder_recursive_def Let_def del: traverseFolder.simps)
  from a b c show ?thesis by blast
qed

text \<open>The output claimed for \<^verbatim>\<open>maxDepth = 1\<close> is not the output of the code.\<close>

theorem lister_boundary_counterexample:
  "listing (fst (list_folder_recursive ''root'' 1 True True None fixture)) \<noteq>
     [(''A'', 0), (''A/x.txt'', 1), (''A/B'', 1)]"
  by (simp add: eval_defs)




text \<open>
  Claim C4 says that a MIME-type filter restricts the listed files only and never keeps
  the traversal out of a folder. In the code the term \<^verbatim>\<open>mimeType = '...'\<close> is part of
  the same query, so with the filter \<^verbatim>\<open>text/plain\<close> folder A is not returned for the
  root and is never entered: the output from the root is empty, although x.txt inside A
  has this type and is listed when the traversal starts at A itself.
\<close>

theorem lister_mime_filter_stops_at_root:
  "listing (fst (list_folder_recursive ''root'' 5 True True (Some ''text/plain'') fixture)) = [] \<and>
   requests (snd (list_folder_recursive ''root'' 5 True True (Some ''text/plain'') fixture)) =
     [ListFiles [InParents ''root'', NotTrashed, MimeIs ''text/plain'']] \<and>
   listing (fst (list_folder_recursive ''A'' 5 True True (Some ''text/plain'') fixture)) =
     [(''x.txt'', 0)]"
  by (simp add: eval_defs)

text \<open>The requests of a traversal, and the folders it adds to \<^verbatim>\<open>visited\<close>.\<close>

lemma expands_refl: "expands iF iFo mt s s []"
  by (simp add: expands_def)

lemma expands_items: "expands iF iFo mt s (s\<lparr>allItems := xs\<rparr>) []"
  by (simp add: expands_def)

lemma expands_step:
  "parentId \<notin> visited s \<Longrightarrow>
     expands iF iFo mt s
       (s\<lparr>visited := insert parentId (visited s),
          backend := logged (ListFiles (traverse_query iF iFo mt parentId)) (backend s)\<rparr>)
       [parentId]"
  by (simp add: expands_def logged_def)

lemma expands_trans:
  "expands iF iFo mt s s1 ps \<Longrightarrow> expands iF iFo mt s1 s2 qs \<Longrightarrow>
     expands iF iFo mt s s2 (ps @ qs)"
  by (auto simp: expands_def)

lemma traverse_expands:
  "\<exists>ps. expands includeFiles includeFolders mimeType s
          (traverseFolder maxDepth includeFiles includeFolders mimeType parentId depth path s) ps"
  "\<exists>ps. expands includeFiles includeFolders mimeType s
          (traverse_files maxDepth includeFiles includeFolders mimeType fs depth path s) ps"
proof (induction maxDepth includeFiles includeFolders mimeType parentId depth path s
         and maxDepth includeFiles includeFolders mimeType fs depth path s
       rule: traverseFolder_traverse_files.induct)
  case (1 maxDepth includeFiles includeFolders mimeType parentId depth path s)
  let ?q = "traverse_query includeFiles includeFolders mimeType parentId"
  let ?s1 = "s\<lparr>visited := insert parentId (visited s), backend := logged (ListFiles ?q) (backend s)\<rparr>"
  show ?case
  proof (cases "maxDepth \<le> depth \<or> parentId \<in> visited s")
    case True
    show ?thesis unfolding traverseFolder_skip [OF True] using expands_refl by blast
  next
    case go: False
    then have st: "expands includeFiles includeFolders mimeType s ?s1 [parentId]"
      using expands_step by simp
    show ?thesis
    proof (cases "list_fails (backend s) ?q")
      case True
      show ?thesis unfolding traverseFolder_fail [OF go True] using st by blast
    next
      case False
      have l: "(Inr (take 100 (filter (\<lambda>f. list_all (satisfies f) ?q) (files (backend s)))),
                logged (ListFiles ?q) (backend s)) = files_list ?q Default 100 (backend s)"
        using False by (simp add: files_list_plain arrange_def)
      show ?thesis unfolding traverseFolder_ok [OF go False]
        using "1.IH" [OF go l refl] expands_trans [OF st] by blast
    qed
  qed
next
  case (2 maxDepth includeFiles includeFolders mimeType depth path s)
  show ?case using expands_refl by (simp del: traverseFolder.simps) blast
next
  case (3 maxDepth includeFiles includeFolders mimeType f fs depth path s)
  let ?s1 = "s\<lparr>allItems := allItems s @ [make_item f path depth]\<rparr>"
  have i: "expands includeFiles includeFolders mimeType s ?s1 []"
    by (rule expands_items)
  show ?case
  proof (cases "file_mime f = folder_mime")
    case True
    from "3.IH"(1) [OF True] obtain ps where
      "expands includeFiles includeFolders mimeType ?s1
         (traverseFolder maxDepth includeFiles includeFolders mimeType (file_id f) (depth + 1)
            (item_path (make_item f path depth)) ?s1) ps" by blast
    from expands_trans [OF i this] "3.IH"(2) True show ?thesis
      by (simp del: traverseFolder.simps) (meson expands_trans)
  next
    case False
    with "3.IH"(2) i show ?thesis
      by (simp del: traverseFolder.simps) (metis expands_trans append_Nil)
  qed
qed

lemma request_parents_traverse_query [simp]:
  "concat (map clause_parent (traverse_query iF iFo mt p)) = [p]"
  by (cases mt) (auto simp: traverse_query_def)

lemma listed_parents_queries:
  "listed_parents (map (\<lambda>p. ListFiles (traverse_query iF iFo mt p)) ps) = ps"
  by (induction ps) (simp_all add: listed_parents_def)

text \<open>
  Claim C5. \<^verbatim>\<open>traverseFolder\<close> and its loop are total functions (their termination
  is proved with the definition, for every backend, cyclic or not: the depth grows with
  every nested call and the listing shrinks with every iteration). Every request a
  traversal issues is a listing of one folder with the traversal's query, and no folder
  is listed twice: a folder is listed only when it is not in \<^verbatim>\<open>visited\<close>, and is
  added to it before the listing.
\<close>

theorem each_folder_listed_once:
  "distinct (listed_parents
      (issued d (snd (list_folder_recursive folderId maxDepth includeFiles includeFolders mimeType d)))) \<and>
   issued d (snd (list_folder_recursive folderId maxDepth includeFiles includeFolders mimeType d)) =
     map (\<lambda>p. ListFiles (traverse_query includeFiles includeFolders mimeType p))
       (listed_parents
          (issued d (snd (list_folder_recursive folderId maxDepth includeFiles includeFolders mimeType d))))"
proof -
  let ?init = "\<lparr>visited = {}, allItems = [], backend = d\<rparr>"
  let ?fin = "traverseFolder maxDepth includeFiles includeFolders mimeType folderId 0 [] ?init"
  obtain ps where "expands includeFiles includeFolders mimeType ?init ?fin ps"
    using traverse_expands(1) by blast
  then have "issued d (backend ?fin) =
               map (\<lambda>p. ListFiles (traverse_query includeFiles includeFolders mimeType p)) ps"
    and "distinct ps"
    by (simp_all add: expands_def issued_def)
  then show ?thesis
    by (simp add: list_folder_recursive_def Let_def listed_parents_queries del: traverseFolder.simps)
qed

text \<open>On the cyclic backend the traversal lists the root, A and B once each and stops.\<close>

theorem each_folder_listed_once_witness:
  "listing (fst (list_folder_recursive ''root'' 10 True True None cyclic)) =
     [(''A'', 0), (''A/B'', 1), (''A/B/A'', 2)] \<and>
   listed_parents (issued cyclic (snd (list_folder_recursive ''root'' 10 True True None cyclic))) =
     [''root'', ''A'', ''B''] \<and>
   distinct (listed_parents
      (issued cyclic (snd (list_folder_recursive ''root'' 10 True True None cyclic))))"
proof -
  have "listing (fst (list_folder_recursive ''root'' 10 True True None cyclic)) =
     [(''A'', 0), (''A/B'', 1), (''A/B/A'', 2)]"
    by (simp add: eval_defs cyclic_def)
  moreover have "listed_parents (issued cyclic (snd (list_folder_recursive ''root'' 10 True True None cyclic))) =
     [''root'', ''A'', ''B'']"
    by (simp add: eval_defs cyclic_def issued_def listed_parents_def)
  ultimately show ?thesis
    using each_folder_listed_once [of cyclic "''root''" 10 True True None] by simp
qed

section \<open>Tree builder: properties\<close>

text \<open>
  Claim C3, as the code has it. On the fixture, \<^verbatim>\<open>get_folder_tree\<close> from the root with
  \<^verbatim>\<open>maxDepth = 2\<close> and \<^verbatim>\<open>includeFiles = false\<close> returns the root with the single child
  A, and A with the single child B: the file x.txt is not listed, but the empty folder B
  is a folder child of A and is pushed like any listed file, so A does carry a
  \<^verbatim>\<open>children\<close> property. B itself carries none, its own listing being cut off by the
  depth bound.
\<close>

theorem tree_fixture_keeps_empty_folder:
  "fst (get_folder_tree ''root'' 2 False fixture) =
     Inr \<lparr>root_id = ''root'', root_name = ''My Drive'',
          root_children =
            Present (Some [Node ''A'' ''A'' Folder None
                             (Present (Some [Node ''B'' ''B'' Folder None Absent]))])\<rparr>"
  by (simp add: eval_defs)

text \<open>The tree claimed, in which A has no \<^verbatim>\<open>children\<close>, is not the tree of the code.\<close>

theorem tree_fixture_counterexample:
  "fst (get_folder_tree ''root'' 2 False fixture) \<noteq>
     Inr \<lparr>root_id = ''root'', root_name = ''My Drive'',
          root_children = Present (Some [Node ''A'' ''A'' Folder None Absent])\<rparr>"
  by (simp add: eval_defs)

text \<open>
  Claim C8, as the code has it. With \<^verbatim>\<open>maxDepth = 0\<close> the tool returns the root node
  with its id and name, and its \<^verbatim>\<open>children\<close> property is present and holds
  \<^verbatim>\<open>null\<close>, the value \<^verbatim>\<open>buildTree\<close> returns at the bound. No listing is requested: for
  the alias \<^verbatim>\<open>'root'\<close> the backend is not called at all, and for another folder the
  only request is the one that fetches its name.
\<close>

theorem tree_depth_zero_children_null:
  "get_folder_tree ''root'' 0 includeFiles d =
     (Inr \<lparr>root_id = ''root'', root_name = ''My Drive'', root_children = Present None\<rparr>, d) \<and>
   (folderId \<noteq> ''root'' \<and> fst (files_get folderId d) = Inr rootFile \<longrightarrow>
      get_folder_tree folderId 0 includeFiles d =
        (Inr \<lparr>root_id = folderId, root_name = file_name rootFile, root_children = Present None\<rparr>,
         logged (GetFile folderId) d))"
  by (auto simp: get_folder_tree_def files_get_def split: list.splits)

theorem tree_depth_zero_children_null_witness:
  "''A'' \<noteq> ''root'' \<and>
   fst (files_get ''A'' fixture) =
     Inr \<lparr>file_id = ''A'', file_name = ''A'', file_mime = folder_mime, file_size = None,
          file_parents = [''root''], file_trashed = False\<rparr> \<and>
   get_folder_tree ''A'' 0 False fixture =
     (Inr \<lparr>root_id = ''A'', root_name = ''A'', root_children = Present None\<rparr>,
      logged (GetFile ''A'') fixture)"
proof -
  have g: "fst (files_get ''A'' fixture) =
     Inr \<lparr>file_id = ''A'', file_name = ''A'', file_mime = folder_mime, file_size = None,
          file_parents = [''root''], file_trashed = False\<rparr>"
    by (simp add: files_get_def fixture_def)
  show ?thesis
    using g tree_depth_zero_children_null [of False fixture "''A''"
              "\<lparr>file_id = ''A'', file_name = ''A'', file_mime = folder_mime, file_size = None,
          file_parents = [''root''], file_trashed = False\<rparr>"]
    by simp
qed

text \<open>A root node without the \<^verbatim>\<open>children\<close> property is not what the code returns.\<close>

theorem tree_depth_zero_counterexample:
  "fst (get_folder_tree ''root'' 0 False fixture) \<noteq>
     Inr \<lparr>root_id = ''root'', root_name = ''My Drive'', root_children = Absent\<rparr>"
  by (simp add: eval_defs)

text \<open>A rejected request anywhere in a tree build ends the build with the error.\<close>

lemma request_fails_requests [simp]:
  "request_fails (d\<lparr>requests := rs\<rparr>) r = request_fails d r"
  by (cases r) (simp_all add: list_fails_def)

lemma request_fails_requests_fun [simp]:
  "request_fails (d\<lparr>requests := rs\<rparr>) = request_fails d"
  by (rule ext) simp

lemma propagatesI:
  "snd r = d\<lparr>requests := requests d @ rs\<rparr> \<Longrightarrow> isl (fst r) \<or> \<not> list_ex (request_fails d) rs \<Longrightarrow>
     propagates d r"
  unfolding propagates_def by blast

lemma build_propagates:
  "propagates d (buildTree maxDepth includeFiles parentId depth d)"
  "propagates d (build_items maxDepth includeFiles fs depth items d)"
proof (induction maxDepth includeFiles parentId depth d
         and maxDepth includeFiles fs depth items d
       rule: buildTree_build_items.induct)
  case (1 maxDepth includeFiles parentId depth d)
  let ?q = "tree_query includeFiles parentId"
  let ?d1 = "logged (ListFiles ?q) d"
  obtain r where r: "(r, ?d1) = files_list ?q ByName 50 d"
    using files_list_pair [of ?q ByName 50 d] by metis
  show ?case
  proof (cases "maxDepth \<le> depth")
    case True
    then show ?thesis by (auto intro!: propagatesI [where rs = "[]"])
  next
    case go: False
    show ?thesis
    proof (cases r)
      case (Inl e)
      with go r [symmetric] show ?thesis
        by (auto intro!: propagatesI [where rs = "[ListFiles ?q]"] simp: logged_def)
    next
      case (Inr b)
      then have nf: "\<not> list_fails d ?q"
        using r by (auto simp: files_list_plain split: if_splits)
      from "1.IH" [OF go r Inr] obtain rs where
        rs: "snd (build_items maxDepth includeFiles b depth [] ?d1) = ?d1\<lparr>requests := requests ?d1 @ rs\<rparr>"
          "isl (fst (build_items maxDepth includeFiles b depth [] ?d1)) \<or> \<not> list_ex (request_fails ?d1) rs"
        unfolding propagates_def by blast
      have f: "request_fails ?d1 = request_fails d"
        by (rule ext) (simp add: logged_def)
      let ?r = "build_items maxDepth includeFiles b depth [] ?d1"
      have eq: "buildTree maxDepth includeFiles parentId depth d =
                  (case ?r of (Inl e, d2) \<Rightarrow> (Inl e, d2)
                            | (Inr items, d2) \<Rightarrow> (Inr (Some items), d2))"
        using go r [symmetric] Inr by simp
      have s: "snd (buildTree maxDepth includeFiles parentId depth d) = snd ?r"
        and i: "isl (fst (buildTree maxDepth includeFiles parentId depth d)) = isl (fst ?r)"
        unfolding eq by (simp_all split: prod.splits sum.splits)
      have "snd ?r = d\<lparr>requests := requests d @ (ListFiles ?q # rs)\<rparr>"
        using rs(1) by (simp add: logged_def)
      moreover have "isl (fst ?r) \<or> \<not> list_ex (request_fails d) (ListFiles ?q # rs)"
        using rs(2) nf f by simp
      ultimately show ?thesis
        unfolding propagates_def s i by blast
    qed
  qed
next
  case (2 maxDepth includeFiles depth items d)
  show ?case by (auto intro!: propagatesI [where rs = "[]"])
next
  case (3 maxDepth includeFiles f fs depth items d)
  show ?case
  proof (cases "file_kind f = Folder")
    case False
    with "3.IH"(3) show ?thesis by (simp del: buildTree.simps)
  next
    case True
    let ?c = "buildTree maxDepth includeFiles (file_id f) (depth + 1) d"
    obtain cr d1 where c: "?c = (cr, d1)" by fastforce
    from "3.IH"(1) [OF True] c obtain rs1 where
      rs1: "d1 = d\<lparr>requests := requests d @ rs1\<rparr>"
           "isl cr \<or> \<not> list_ex (request_fails d) rs1"
      unfolding propagates_def by auto
    show ?thesis
    proof (cases cr)
      case (Inl e)
      then have "build_items maxDepth includeFiles (f # fs) depth items d = (Inl e, d1)"
        using True c by (simp del: buildTree.simps)
      with rs1 show ?thesis by (auto intro!: propagatesI [where rs = rs1])
    next
      case (Inr children)
      let ?r = "build_items maxDepth includeFiles fs depth
                  (items @ [Node (file_id f) (file_name f) Folder (file_size f)
                              (attach_children children)]) d1"
      have eq: "build_items maxDepth includeFiles (f # fs) depth items d = ?r"
        using True c Inr by (simp del: buildTree.simps)
      from "3.IH"(2) [OF True c [symmetric] Inr] obtain rs2 where
        rs2: "snd ?r = d1\<lparr>requests := requests d1 @ rs2\<rparr>"
             "isl (fst ?r) \<or> \<not> list_ex (request_fails d1) rs2"
        unfolding propagates_def by blast
      have ok1: "\<not> list_ex (request_fails d) rs1" using rs1(2) Inr by simp
      have "snd ?r = d\<lparr>requests := requests d @ (rs1 @ rs2)\<rparr>"
        using rs2(1) rs1(1) by simp
      moreover have "isl (fst ?r) \<or> \<not> list_ex (request_fails d) (rs1 @ rs2)"
        using rs2(2) ok1 rs1(1) by simp
      ultimately show ?thesis unfolding eq by (rule propagatesI)
    qed
  qed
qed

lemma tree_propagates:
  "propagates d (get_folder_tree folderId maxDepth includeFiles d)"
proof (cases "folderId = ''root''")
  case True
  let ?b = "buildTree maxDepth includeFiles folderId 0 d"
  have "snd (get_folder_tree folderId maxDepth includeFiles d) = snd ?b"
    and "isl (fst (get_folder_tree folderId maxDepth includeFiles d)) = isl (fst ?b)"
    using True by (simp_all add: get_folder_tree_def split: prod.splits sum.splits del: buildTree.simps)
  then show ?thesis
    using build_propagates(1) [of d maxDepth includeFiles folderId 0]
    by (simp add: propagates_def del: buildTree.simps)
next
  case False
  let ?d1 = "logged (GetFile folderId) d"
  show ?thesis
  proof (cases "filter (\<lambda>f. file_id f = folderId) (files d)")
    case Nil
    with False have "get_folder_tree folderId maxDepth includeFiles d =
                       (Inl (BackendFailure (GetFile folderId)), ?d1)"
      by (simp add: get_folder_tree_def files_get_def)
    then show ?thesis
      by (auto intro!: propagatesI [where rs = "[GetFile folderId]"] simp: logged_def)
  next
    case (Cons rootFile rest)
    let ?b = "buildTree maxDepth includeFiles folderId 0 ?d1"
    have s: "snd (get_folder_tree folderId maxDepth includeFiles d) = snd ?b"
      and i: "isl (fst (get_folder_tree folderId maxDepth includeFiles d)) = isl (fst ?b)"
      using False Cons
      by (simp_all add: get_folder_tree_def files_get_def split: prod.splits sum.splits
            del: buildTree.simps)
    from build_propagates(1) [of ?d1 maxDepth includeFiles folderId 0] obtain rs where
      rs: "snd ?b = ?d1\<lparr>requests := requests ?d1 @ rs\<rparr>"
          "isl (fst ?b) \<or> \<not> list_ex (request_fails ?d1) rs"
      unfolding propagates_def by blast
    have "snd ?b = d\<lparr>requests := requests d @ (GetFile folderId # rs)\<rparr>"
      using rs(1) by (simp add: logged_def)
    moreover have "isl (fst ?b) \<or> \<not> list_ex (request_fails d) (GetFile folderId # rs)"
      using rs(2) Cons by (simp add: logged_def)
    ultimately show ?thesis
      unfolding propagates_def s i by blast
  qed
qed

lemma issued_append [simp]: "issued d (d\<lparr>requests := requests d @ rs\<rparr>) = rs"
  by (simp add: issued_def)

section \<open>Failures of the backend in the two traversals\<close>

text \<open>
  Claim C6. In the lister a rejected listing is caught where it happens. When the listing
  of the start folder is rejected the tool still answers, with no item. When the listing
  of a subfolder \<open>f\<close> is rejected, the traversal goes on with the files after \<open>f\<close>
  from the state in which \<open>f\<close>'s own entry has been pushed, \<open>f\<close> is visited and
  nothing else was added: the branch contributes no entry. In the tree builder nothing is
  caught: whenever a request of a tree build is rejected by the backend, the tool ends
  with the error and returns no tree.
\<close>

theorem lister_catches_tree_propagates:
  "(list_fails d (traverse_query includeFiles includeFolders mimeType folderId) \<longrightarrow>
      lr_items (fst (list_folder_recursive folderId maxDepth includeFiles includeFolders mimeType d)) = []) \<and>
   (file_mime f = folder_mime \<and> depth + 1 < maxDepth \<and> file_id f \<notin> visited s \<and>
    list_fails (backend s) (traverse_query includeFiles includeFolders mimeType (file_id f)) \<longrightarrow>
      traverse_files maxDepth includeFiles includeFolders mimeType (f # fs) depth path s =
      traverse_files maxDepth includeFiles includeFolders mimeType fs depth path
        (s\<lparr>visited := insert (file_id f) (visited s),
           allItems := allItems s @ [make_item f path depth],
           backend := logged (ListFiles (traverse_query includeFiles includeFolders mimeType (file_id f)))
                        (backend s)\<rparr>)) \<and>
   (list_ex (request_fails d) (issued d (snd (get_folder_tree folderId maxDepth includeFiles d))) \<longrightarrow>
      isl (fst (get_folder_tree folderId maxDepth includeFiles d)))"
proof (intro conjI impI)
  assume "list_fails d (traverse_query includeFiles includeFolders mimeType folderId)"
  then show "lr_items (fst (list_folder_recursive folderId maxDepth includeFiles includeFolders mimeType d)) = []"
    by (simp add: list_folder_recursive_def files_list_plain)
next
  assume a: "file_mime f = folder_mime \<and> depth + 1 < maxDepth \<and> file_id f \<notin> visited s \<and>
    list_fails (backend s) (traverse_query includeFiles includeFolders mimeType (file_id f))"
  let ?s1 = "s\<lparr>allItems := allItems s @ [make_item f path depth]\<rparr>"
  have "traverseFolder maxDepth includeFiles includeFolders mimeType (file_id f) (depth + 1)
          (item_path (make_item f path depth)) ?s1 =
        s\<lparr>visited := insert (file_id f) (visited s),
          allItems := allItems s @ [make_item f path depth],
          backend := logged (ListFiles (traverse_query includeFiles includeFolders mimeType (file_id f)))
                       (backend s)\<rparr>"
    using a traverseFolder_fail [where s = ?s1 and parentId = "file_id f" and maxDepth = maxDepth
               and depth = "depth + 1" and includeFiles = includeFiles
               and includeFolders = includeFolders and mimeType = mimeType
               and path = "item_path (make_item f path depth)"]
    by simp
  with a show "traverse_files maxDepth includeFiles includeFolders mimeType (f # fs) depth path s =
      traverse_files maxDepth includeFiles includeFolders mimeType fs depth path
        (s\<lparr>visited := insert (file_id f) (visited s),
           allItems := allItems s @ [make_item f path depth],
           backend := logged (ListFiles (traverse_query includeFiles includeFolders mimeType (file_id f)))
                        (backend s)\<rparr>)"
    by (simp del: traverseFolder.simps)
next
  assume f: "list_ex (request_fails d) (issued d (snd (get_folder_tree folderId maxDepth includeFiles d)))"
  from tree_propagates [of d folderId maxDepth includeFiles] obtain rs where
    "snd (get_folder_tree folderId maxDepth includeFiles d) = d\<lparr>requests := requests d @ rs\<rparr>"
    "isl (fst (get_folder_tree folderId maxDepth includeFiles d)) \<or> \<not> list_ex (request_fails d) rs"
    unfolding propagates_def by blast
  with f show "isl (fst (get_folder_tree folderId maxDepth includeFiles d))"
    by simp
qed

theorem lister_catches_tree_propagates_witness:
  "list_fails guarded (traverse_query True True None ''A'') \<and>
   listing (fst (list_folder_recursive ''root'' 5 True True None guarded)) =
     [(''A'', 0), (''y.txt'', 0)] \<and>
   lr_items (fst (list_folder_recursive ''A'' 5 True True None guarded)) = [] \<and>
   fst (get_folder_tree ''root'' 3 False guarded) =
     Inl (BackendFailure (ListFiles [InParents ''A'', NotTrashed, MimeIs folder_mime])) \<and>
   list_ex (request_fails guarded) (issued guarded (snd (get_folder_tree ''root'' 3 False guarded))) \<and>
   isl (fst (get_folder_tree ''root'' 3 False guarded))"
proof -
  have h1: "list_fails guarded (traverse_query True True None ''A'')"
    by (simp add: guarded_def list_fails_def traverse_query_def)
  have h2: "listing (fst (list_folder_recursive ''root'' 5 True True None guarded)) =
     [(''A'', 0), (''y.txt'', 0)]"
    by (simp add: eval_defs guarded_def)
  have h3: "fst (get_folder_tree ''root'' 3 False guarded) =
     Inl (BackendFailure (ListFiles [InParents ''A'', NotTrashed, MimeIs folder_mime]))"
    by (simp add: eval_defs guarded_def)
  have h4: "list_ex (request_fails guarded) (issued guarded (snd (get_folder_tree ''root'' 3 False guarded)))"
    by (simp add: eval_defs guarded_def issued_def)
  show ?thesis
    using h1 h2 h3 h4
      lister_catches_tree_propagates [of guarded True True None "''A''" 5]
      lister_catches_tree_propagates [of guarded False _ _ "''root''" 3]
    by simp
qed

end
